theory Spec2Isabelle
  imports Main
begin

section \<open>Python strings\<close>

text \<open>
  A Python \<open>str\<close> is a sequence of code points. It is modelled as a \<^typ>\<open>string\<close>, each
  \<^typ>\<open>char\<close> standing for the code point of the same number, so the model covers text
  whose code points are below 256 (ASCII and Latin-1), and \<^const>\<open>length\<close> counts
  code points as Python's \<open>len\<close> does. The character classes below are Python's on that
  range.
\<close>

definition py_isspace :: "char \<Rightarrow> bool" where
  \<comment> \<open>the separators of \<open>str.split()\<close>: TAB, LF, VT, FF, CR, FS, GS, RS, US, space, NEL, NBSP\<close>
  "py_isspace c =
     (let n = (of_char c :: nat)
      in (9 \<le> n \<and> n \<le> 13) \<or> (28 \<le> n \<and> n \<le> 32) \<or> n = 133 \<or> n = 160)"

definition py_isupper :: "char \<Rightarrow> bool" where
  \<comment> \<open>\<open>c.isupper()\<close> for a single character: A-Z and the Latin-1 capitals (not the
      multiplication sign, 215)\<close>
  "py_isupper c =
     (let n = (of_char c :: nat)
      in (65 \<le> n \<and> n \<le> 90) \<or> (192 \<le> n \<and> n \<le> 222 \<and> n \<noteq> 215))"

definition lower_char :: "char \<Rightarrow> char" where
  "lower_char c = (if py_isupper c then char_of (of_char c + (32 :: nat)) else c)"

definition py_lower :: "string \<Rightarrow> string" where
  \<comment> \<open>\<open>s.lower()\<close>\<close>
  "py_lower s = map lower_char s"

fun startswith :: "string \<Rightarrow> string \<Rightarrow> bool" where
  \<comment> \<open>\<open>startswith p s\<close> is \<open>s.startswith(p)\<close>\<close>
  "startswith [] s = True"
| "startswith (x # p) [] = False"
| "startswith (x # p) (y # s) = (x = y \<and> startswith p s)"

fun py_in :: "string \<Rightarrow> string \<Rightarrow> bool" where
  \<comment> \<open>\<open>py_in k s\<close> is \<open>k in s\<close>: the substring test\<close>
  "py_in k [] = (k = [])"
| "py_in k (c # s) = (startswith k (c # s) \<or> py_in k s)"

fun split_from :: "string \<Rightarrow> string \<Rightarrow> string list" where
  \<comment> \<open>the scan of \<open>str.split()\<close>: \<open>cur\<close> is the token being read\<close>
  "split_from cur [] = (if cur = [] then [] else [cur])"
| "split_from cur (c # s) =
     (if py_isspace c
      then (if cur = [] then split_from [] s else cur # split_from [] s)
      else split_from (cur @ [c]) s)"

definition py_split :: "string \<Rightarrow> string list" where
  \<comment> \<open>\<open>s.split()\<close>: runs of whitespace separate, no empty token is produced\<close>
  "py_split s = split_from [] s"

fun py_join :: "string \<Rightarrow> string list \<Rightarrow> string" where
  \<comment> \<open>\<open>sep.join(ws)\<close>\<close>
  "py_join sep [] = []"
| "py_join sep [w] = w"
| "py_join sep (w # v # ws) = w @ sep @ py_join sep (v # ws)"

section \<open>The company-name heuristic\<close>

text \<open>
  The exceptions of a run: \<open>OverflowError\<close> from the date arithmetic, \<open>IndexError\<close> from
  indexing a string, an exception (a subclass of \<open>Exception\<close>) raised inside
  \<open>feedparser.parse\<close>, and one raised while the workbook is written, the last two with
  their message.
\<close>

datatype exn =
    OverflowError
  | IndexError
  | FeedFailure string
  | WriteFailure string

text \<open>
  \<^verbatim>\<open>
  for word in words[:5]:
      if word[0].isupper() and len(word) > 2:
          company_words.append(word)
      else:
          break
  \<close>
  \<open>word[0]\<close> raises on an empty word.
\<close>

fun company_loop :: "string list \<Rightarrow> string list \<Rightarrow> exn + string list" where
  "company_loop [] company_words = Inr company_words"
| "company_loop (word # rest) company_words =
     (case word of
        [] \<Rightarrow> Inl IndexError
      | c # _ \<Rightarrow>
          if py_isupper c \<and> length word > 2
          then company_loop rest (company_words @ [word])
          else Inr company_words)"

definition extract_company_name :: "string \<Rightarrow> exn + string" where
  "extract_company_name text =
     (let words = py_split text
      in case company_loop (take 5 words) [] of
           Inl e \<Rightarrow> Inl e
         | Inr company_words \<Rightarrow>
             Inr (if company_words \<noteq> [] then py_join '' '' company_words else ''Unknown''))"

section \<open>The environment\<close>

text \<open>
  A feed entry is a dictionary from field names to text. An article is the dictionary
  with the five keys \<open>title\<close>, \<open>link\<close>, \<open>published\<close>, \<open>summary\<close>, \<open>source\<close> that
  \<open>fetch_news_from_feed\<close> builds.
\<close>

type_synonym entry = "string \<rightharpoonup> string"

record article =
  title :: string
  link :: string
  published :: string
  summary :: string
  source :: string

text \<open>
  The row of a category sheet (\<open>data\<close> in \<open>process_articles\<close>), and the dictionary of
  the four buckets, whose keys are fixed by its literal, in this order.
\<close>

record row =
  Company :: string
  Date :: string
  Title :: string
  Source :: string
  URL :: string
  Summary :: string

record categorized =
  revenue :: "row list"
  acquisitions :: "row list"
  funding :: "row list"
  new_companies :: "row list"

datatype sheet =
    CountSheet "(string \<times> nat) list"
  | RowSheet "row list"
  | FieldSheet "(string \<times> string) list"

type_synonym workbook = "(string \<times> sheet) list"

text \<open>
  What the program reads from outside: the clock, the feed parser and the spreadsheet
  writer. \<open>today\<close> is the proleptic Gregorian ordinal of \<open>datetime.now()\<close> (1 is
  0001-01-01, 3652059 is 9999-12-31) while the feeds are fetched; the four texts are the
  \<open>strftime\<close> renderings of the four later readings of the clock: the run date of the
  banner, the year and month of the file name, and the generation time and the period of
  the Metadata sheet. \<open>feedparser_parse\<close> gives the entries of the feed at a URL, or the
  exception the library raised, and \<open>feedparser_bozo\<close> the flag the parser sets on a feed
  that it could not retrieve or that is not well formed, when it reports the failure in
  its result, with the entries it could read, instead of raising; the program does not
  read the flag. \<open>excel_save\<close> gives the exception raised while the workbook is written, if
  any, and \<open>excel_left\<close> what such a failed write leaves under the file name.
\<close>

record world =
  today :: int
  now_month_year :: string
  now_timestamp :: string
  now_generated :: string
  now_period :: string
  feedparser_parse :: "string \<Rightarrow> exn + entry list"
  feedparser_bozo :: "string \<Rightarrow> bool"
  excel_save :: "string \<Rightarrow> workbook \<Rightarrow> exn option"
  excel_left :: "string \<Rightarrow> workbook \<Rightarrow> workbook option"

text \<open>What the program writes: the lines printed, and the files on disk.\<close>

datatype line =
    Text string
  | RunDate string
  | LookingBack int
  | FetchingFrom string
  | Found nat
  | ErrorFetching string exn
  | TotalCollected nat
  | NoArticlesWarning
  | RevenueArticles nat
  | AcquisitionArticles nat
  | FundingArticles nat
  | NewCompanyArticles nat
  | ReportCreated string

record state =
  stdout :: "line list"
  files :: "string \<rightharpoonup> workbook"

definition print :: "line \<Rightarrow> state \<Rightarrow> state" where
  "print l s = s\<lparr>stdout := stdout s @ [l]\<rparr>"

definition prints :: "line list \<Rightarrow> state \<Rightarrow> state" where
  "prints ls s = s\<lparr>stdout := stdout s @ ls\<rparr>"

definition rule :: "nat \<Rightarrow> string" where
  "rule n = replicate n CHR ''=''"

definition heading :: "string \<Rightarrow> line list" where
  "heading t = [Text (CHR 0x0A # rule 60), Text t, Text (rule 60)]"

section \<open>Configuration\<close>

definition feeds :: "(string \<times> string) list" where
  "feeds =
     [(''FierceBiotech'', ''https://www.fiercebiotech.com/rss/xml''),
      (''BioPharma Dive'', ''https://www.biopharmadive.com/feeds/news/''),
      (''GEN News'', ''https://www.genengnews.com/feed/''),
      (''BioSpace'', ''https://www.biospace.com/feed/'')]"

definition keywords_table :: "(string \<times> string list) list" where
  "keywords_table =
     [(''revenue'',
         [''revenue'', ''earnings'', ''quarterly results'', ''q1'', ''q2'', ''q3'', ''q4'',
          ''sales'', ''financial results'', ''profit'']),
      (''acquisition'',
         [''acquisition'', ''merger'', ''acquire'', ''acquired'', ''deal'', ''bought'',
          ''takeover'', ''m&a'', ''purchase'']),
      (''funding'',
         [''funding'', ''raised'', ''series a'', ''series b'', ''series c'', ''investment'',
          ''investors'', ''venture capital'', ''ipo'', ''financing'']),
      (''new_company'',
         [''launched'', ''founded'', ''new company'', ''startup'', ''spin-off'',
          ''spinout'', ''established'', ''announces formation''])]"

section \<open>Fetching\<close>

definition timedelta_days :: "int \<Rightarrow> exn + int" where
  \<comment> \<open>\<open>timedelta(days=d)\<close>\<close>
  "timedelta_days d = (if \<bar>d\<bar> > 999999999 then Inl OverflowError else Inr d)"

definition cutoff_date :: "int \<Rightarrow> int \<Rightarrow> exn + int" where
  \<comment> \<open>\<open>datetime.now() - timedelta(days=days_back)\<close>, as an ordinal\<close>
  "cutoff_date now days_back =
     (case timedelta_days days_back of
        Inl e \<Rightarrow> Inl e
      | Inr d \<Rightarrow>
          if 1 \<le> now - d \<and> now - d \<le> 3652059 then Inr (now - d) else Inl OverflowError)"

definition entry_get :: "entry \<Rightarrow> string \<Rightarrow> string \<Rightarrow> string" where
  \<comment> \<open>\<open>entry.get(key, default)\<close>\<close>
  "entry_get e key dflt = (case e key of None \<Rightarrow> dflt | Some v \<Rightarrow> v)"

fun entries_loop :: "string \<Rightarrow> entry list \<Rightarrow> article list \<Rightarrow> article list" where
  "entries_loop source_name [] articles = articles"
| "entries_loop source_name (e # rest) articles =
     entries_loop source_name rest
       (articles @
        [\<lparr>title = entry_get e ''title'' [],
          link = entry_get e ''link'' [],
          published = entry_get e ''published'' [],
          summary = entry_get e ''summary'' [],
          source = source_name\<rparr>])"

definition fetch_news_from_feed ::
  "world \<Rightarrow> string \<Rightarrow> string \<Rightarrow> int \<Rightarrow> state \<Rightarrow> (exn + article list) \<times> state" where
  "fetch_news_from_feed w feed_url source_name days_back s =
     (case cutoff_date (today w) days_back of
        Inl e \<Rightarrow> (Inl e, s)
      | Inr cutoff \<Rightarrow>
          (let s1 = print (FetchingFrom source_name) s
           in (case feedparser_parse w feed_url of
                 Inl e \<Rightarrow> (Inr [], print (ErrorFetching source_name e) s1)
               | Inr entries \<Rightarrow>
                   (let articles = entries_loop source_name (take 100 entries) []
                    in (Inr articles, print (Found (length articles)) s1)))))"

fun fetch_loop ::
  "world \<Rightarrow> int \<Rightarrow> (string \<times> string) list \<Rightarrow> article list \<Rightarrow> state
     \<Rightarrow> (exn + article list) \<times> state" where
  "fetch_loop w days_back [] all_articles s = (Inr all_articles, s)"
| "fetch_loop w days_back ((source_name, feed_url) # rest) all_articles s =
     (case fetch_news_from_feed w feed_url source_name days_back s of
        (Inl e, s') \<Rightarrow> (Inl e, s')
      | (Inr articles, s') \<Rightarrow> fetch_loop w days_back rest (all_articles @ articles) s')"

definition fetch_all_news :: "world \<Rightarrow> int \<Rightarrow> state \<Rightarrow> (exn + article list) \<times> state" where
  "fetch_all_news w days_back s =
     (case fetch_loop w days_back feeds [] (prints (heading ''COLLECTING NEWS FROM SOURCES'') s) of
        (Inl e, s') \<Rightarrow> (Inl e, s')
      | (Inr all_articles, s') \<Rightarrow>
          (Inr all_articles, print (TotalCollected (length all_articles)) s'))"

section \<open>Classifying\<close>

fun categorize_loop ::
  "(string \<times> string list) list \<Rightarrow> string \<Rightarrow> string list \<Rightarrow> string list" where
  "categorize_loop [] text categories = categories"
| "categorize_loop ((category, kws) # rest) text categories =
     (if list_ex (\<lambda>keyword. py_in keyword text) kws
      then categorize_loop rest text (categories @ [category])
      else categorize_loop rest text categories)"

definition categorize_article :: "article \<Rightarrow> string list" where
  "categorize_article a =
     (let text = py_lower (title a @ '' '' @ summary a)
      in categorize_loop keywords_table text [])"

section \<open>Bucketing\<close>

definition make_data :: "article \<Rightarrow> string \<Rightarrow> row" where
  "make_data a company =
     \<lparr>Company = company,
      Date = (if published a \<noteq> [] then take 10 (published a) else ''N/A''),
      Title = title a,
      Source = source a,
      URL = link a,
      Summary =
        (if length (summary a) > 200 then take 200 (summary a) @ ''...'' else summary a)\<rparr>"

fun process_loop :: "article list \<Rightarrow> categorized \<Rightarrow> exn + categorized" where
  "process_loop [] cz = Inr cz"
| "process_loop (a # rest) cz =
     (let categories = categorize_article a
      in case extract_company_name (title a) of
           Inl e \<Rightarrow> Inl e
         | Inr company \<Rightarrow>
             let data = make_data a company;
                 c1 = (if ''revenue'' \<in> set categories
                       then cz\<lparr>revenue := revenue cz @ [data]\<rparr> else cz);
                 c2 = (if ''acquisition'' \<in> set categories
                       then c1\<lparr>acquisitions := acquisitions c1 @ [data]\<rparr> else c1);
                 c3 = (if ''funding'' \<in> set categories
                       then c2\<lparr>funding := funding c2 @ [data]\<rparr> else c2);
                 c4 = (if ''new_company'' \<in> set categories
                       then c3\<lparr>new_companies := new_companies c3 @ [data]\<rparr> else c3)
             in process_loop rest c4)"

definition no_buckets :: categorized where
  "no_buckets = \<lparr>revenue = [], acquisitions = [], funding = [], new_companies = []\<rparr>"

definition process_articles :: "article list \<Rightarrow> state \<Rightarrow> (exn + categorized) \<times> state" where
  "process_articles articles s =
     (let s1 = prints (heading ''PROCESSING AND CATEGORIZING ARTICLES'') s
      in case process_loop articles no_buckets of
           Inl e \<Rightarrow> (Inl e, s1)
         | Inr cz \<Rightarrow>
             (Inr cz,
              prints [RevenueArticles (length (revenue cz)),
                      AcquisitionArticles (length (acquisitions cz)),
                      FundingArticles (length (funding cz)),
                      NewCompanyArticles (length (new_companies cz))] s1))"

section \<open>Writing the report\<close>

definition dict_items :: "categorized \<Rightarrow> (string \<times> row list) list" where
  \<comment> \<open>\<open>categorized_data.items()\<close>\<close>
  "dict_items cz =
     [(''revenue'', revenue cz), (''acquisitions'', acquisitions cz),
      (''funding'', funding cz), (''new_companies'', new_companies cz)]"

definition dict_values :: "categorized \<Rightarrow> row list list" where
  \<comment> \<open>\<open>categorized_data.values()\<close>\<close>
  "dict_values cz = map snd (dict_items cz)"

definition summary_data :: "categorized \<Rightarrow> (string \<times> nat) list" where
  \<comment> \<open>the rows of the data frame built from the columns \<open>Category\<close> and \<open>Count\<close>\<close>
  "summary_data cz =
     zip [''Revenue Reports'', ''Acquisitions'', ''Funding Rounds'', ''New Companies'',
          ''Total Articles'']
         [length (revenue cz),
          length (acquisitions cz),
          length (funding cz),
          length (new_companies cz),
          sum_list (map length (dict_values cz))]"

definition replace_char :: "char \<Rightarrow> char \<Rightarrow> string \<Rightarrow> string" where
  \<comment> \<open>\<open>s.replace(a, b)\<close> for one-character \<open>a\<close> and \<open>b\<close>\<close>
  "replace_char a b s = map (\<lambda>c. if c = a then b else c) s"

definition is_ascii_lower :: "char \<Rightarrow> bool" where
  "is_ascii_lower c = (let n = (of_char c :: nat) in 97 \<le> n \<and> n \<le> 122)"

fun title_from :: "bool \<Rightarrow> string \<Rightarrow> string" where
  \<comment> \<open>\<open>s.title()\<close>, exact on ASCII text, which the bucket names are: a letter after a
      letter is lowered, any other letter is raised\<close>
  "title_from prev_cased [] = []"
| "title_from prev_cased (c # s) =
     (if py_isupper c \<or> is_ascii_lower c
      then (if prev_cased then lower_char c
            else if is_ascii_lower c then char_of (of_char c - (32 :: nat)) else c)
           # title_from True s
      else c # title_from False s)"

definition py_title :: "string \<Rightarrow> string" where
  "py_title s = title_from False s"

fun category_sheets :: "(string \<times> row list) list \<Rightarrow> workbook" where
  "category_sheets [] = []"
| "category_sheets ((category, articles) # rest) =
     (if articles \<noteq> []
      then (py_title (replace_char CHR ''_'' CHR '' '' category), RowSheet articles)
           # category_sheets rest
      else category_sheets rest)"

definition metadata :: "world \<Rightarrow> (string \<times> string) list" where
  "metadata w =
     zip [''Report Generated'', ''Report Period'', ''Sources Used'', ''Agent Version'']
         [now_generated w, now_period w, py_join '', '' (map fst feeds),
          ''1.0.0 (GitHub Actions)'']"

definition report_filename :: "world \<Rightarrow> string" where
  "report_filename w = ''Biotech_Pharma_Report_'' @ now_month_year w @ ''.xlsx''"

definition report_workbook :: "world \<Rightarrow> categorized \<Rightarrow> workbook" where
  "report_workbook w cz =
     (''Summary'', CountSheet (summary_data cz))
     # category_sheets (dict_items cz)
     @ [(''Metadata'', FieldSheet (metadata w))]"

definition create_excel_report ::
  "world \<Rightarrow> categorized \<Rightarrow> state \<Rightarrow> (exn + string) \<times> state" where
  "create_excel_report w categorized_data s =
     (let s1 = prints (heading ''GENERATING EXCEL REPORT'') s;
          filename = report_filename w;
          book = report_workbook w categorized_data
      in case excel_save w filename book of
           Some e \<Rightarrow>
             (Inl e, s1\<lparr>files := (files s1)(filename := excel_left w filename book)\<rparr>)
         | None \<Rightarrow>
             (Inr filename,
              print (ReportCreated filename) (s1\<lparr>files := (files s1)(filename \<mapsto> book)\<rparr>)))"

section \<open>The run\<close>

definition run_banner :: "world \<Rightarrow> int \<Rightarrow> line list" where
  "run_banner w days_back =
     [Text (CHR 0x0A # rule 70),
      Text (replicate 15 CHR '' '' @ ''BIOTECH & PHARMA NEWS AGENT''),
      Text (replicate 20 CHR '' '' @ ''Automated Monthly Report''),
      Text (rule 70),
      RunDate (now_timestamp w),
      LookingBack days_back,
      Text (rule 70)]"

definition report_complete :: "line list" where
  "report_complete =
     [Text (CHR 0x0A # rule 70),
      Text (replicate 25 CHR '' '' @ ''REPORT COMPLETE!''),
      Text (rule 70)]"

definition run_monthly_report ::
  "world \<Rightarrow> int \<Rightarrow> state \<Rightarrow> (exn + string option) \<times> state" where
  "run_monthly_report w days_back s =
     (case fetch_all_news w days_back (prints (run_banner w days_back) s) of
        (Inl e, s2) \<Rightarrow> (Inl e, s2)
      | (Inr articles, s2) \<Rightarrow>
          if articles = [] then (Inr None, print NoArticlesWarning s2)
          else
            (case process_articles articles s2 of
               (Inl e, s3) \<Rightarrow> (Inl e, s3)
             | (Inr cz, s3) \<Rightarrow>
                 (case create_excel_report w cz s3 of
                    (Inl e, s4) \<Rightarrow> (Inl e, s4)
                  | (Inr filename, s4) \<Rightarrow>
                      (Inr (Some filename), prints report_complete s4))))"

section \<open>A sample environment\<close>

text \<open>
  A day on which three feeds time out and the fourth serves two entries, the second of
  them without a summary or a date.
\<close>

definition sample_entries :: "entry list" where
  "sample_entries =
     [[''title'' \<mapsto> ''Moderna Raised Funding in Series B'',
       ''link'' \<mapsto> ''https://www.biospace.com/a1'',
       ''published'' \<mapsto> ''2026-11-01T10:00:00Z'',
       ''summary'' \<mapsto> ''The deal follows strong Q3 revenue.''],
      [''title'' \<mapsto> ''a quiet week'']]"

definition sample_world :: world where
  "sample_world =
     \<lparr>today = 739924,
      now_month_year = ''2026-11'',
      now_timestamp = ''2026-11-04 12:00:00 UTC'',
      now_generated = ''2026-11-04 12:00:06 UTC'',
      now_period = ''November 2026'',
      feedparser_parse =
        (\<lambda>url. if url = ''https://www.biospace.com/feed/'' then Inr sample_entries
               else Inl (FeedFailure ''timed out'')),
      feedparser_bozo = (\<lambda>url. False),
      excel_save = (\<lambda>filename book. None),
      excel_left = (\<lambda>filename book. None)\<rparr>"

definition silent_world :: world where
  \<comment> \<open>the same day with every feed timing out\<close>
  "silent_world = sample_world\<lparr>feedparser_parse := (\<lambda>url. Inl (FeedFailure ''timed out''))\<rparr>"

definition malformed_world :: world where
  \<comment> \<open>the same day with the fourth feed not well formed: the parser flags it and returns
      the two entries it could read\<close>
  "malformed_world =
     sample_world\<lparr>feedparser_bozo := (\<lambda>url. url = ''https://www.biospace.com/feed/'')\<rparr>"

definition full_disk_world :: world where
  \<comment> \<open>the same day with the spreadsheet writer failing\<close>
  "full_disk_world =
     sample_world\<lparr>excel_save :=
       (\<lambda>filename book. Some (WriteFailure ''No space left on device''))\<rparr>"

definition start :: state where
  "start = \<lparr>stdout = [], files = Map.empty\<rparr>"

text \<open>
  Two articles: one whose text has \<open>ipo\<close> inside \<open>IPOD\<close>, \<open>raised\<close> and \<open>deal\<close>, and
  one with a summary of 201 characters.
\<close>

definition ipod_article :: article where
  "ipod_article =
     \<lparr>title = ''IPOD Maker Raised Cash'', link = [], published = [],
      summary = ''No Deal yet'', source = ''BioSpace''\<rparr>"

definition long_article :: article where
  "long_article =
     \<lparr>title = ''Amgen Profit Up'', link = ''https://www.biospace.com/a2'',
      published = ''2026-11-01T10:00:00Z'',
      summary = replicate 201 CHR ''x'', source = ''BioSpace''\<rparr>"

section \<open>The specification's vocabulary\<close>

text \<open>
  The test of the company-name heuristic in the specification's words: the token's first
  character is an uppercase letter and the token is longer than two characters.
\<close>

definition qualifies :: "string \<Rightarrow> bool" where
  "qualifies word = (word \<noteq> [] \<and> py_isupper (hd word) \<and> 2 < length word)"

text \<open>
  A keyword occurs in a text as a substring, letter case ignored: some stretch of the
  text and the keyword are the same once both are lowered.
\<close>

definition occurs_ci :: "string \<Rightarrow> string \<Rightarrow> bool" where
  "occurs_ci keyword t = (\<exists>p u s. t = p @ u @ s \<and> py_lower u = py_lower keyword)"

definition search_text :: "article \<Rightarrow> string" where
  "search_text a = title a @ '' '' @ summary a"

text \<open>
  The company name of a title, the row of an article and the four buckets of a list of
  articles, as the specification describes them: the leading run of qualifying tokens
  among the first five, the record built from the article and that name, and in each
  bucket the rows of the articles of that category, in the order of the articles.
\<close>

definition company_name :: "string \<Rightarrow> string" where
  "company_name t =
     (let ws = takeWhile qualifies (take 5 (py_split t))
      in if ws = [] then ''Unknown'' else py_join '' '' ws)"

definition data_of :: "article \<Rightarrow> row" where
  "data_of a = make_data a (company_name (title a))"

definition in_category :: "string \<Rightarrow> article \<Rightarrow> bool" where
  "in_category category a = (category \<in> set (categorize_article a))"

definition buckets :: "article list \<Rightarrow> categorized" where
  "buckets arts =
     \<lparr>revenue = map data_of (filter (in_category ''revenue'') arts),
      acquisitions = map data_of (filter (in_category ''acquisition'') arts),
      funding = map data_of (filter (in_category ''funding'') arts),
      new_companies = map data_of (filter (in_category ''new_company'') arts)\<rparr>"

section \<open>Whitespace splitting\<close>

lemma split_from_nonempty: "w \<in> set (split_from cur s) \<Longrightarrow> w \<noteq> []"
  by (induction s arbitrary: cur) (auto split: if_splits)

lemma split_from_nospace:
  "\<forall>c \<in> set cur. \<not> py_isspace c \<Longrightarrow> w \<in> set (split_from cur s) \<Longrightarrow> c \<in> set w
     \<Longrightarrow> \<not> py_isspace c"
proof (induction s arbitrary: cur)
  case Nil
  then show ?case by (auto split: if_splits)
next
  case (Cons a s)
  show ?case
  proof (cases "py_isspace a")
    case True
    with Cons.prems have "w = cur \<or> w \<in> set (split_from [] s)"
      by (auto split: if_splits)
    then show ?thesis
      using Cons.IH[of "[]"] Cons.prems(1,3) by auto
  next
    case False
    with Cons.prems have "w \<in> set (split_from (cur @ [a]) s)" by simp
    then show ?thesis
      using Cons.IH[of "cur @ [a]"] Cons.prems(1,3) False by auto
  qed
qed

lemma split_from_concat: "concat (split_from cur s) = cur @ filter (\<lambda>c. \<not> py_isspace c) s"
  by (induction s arbitrary: cur) auto

lemma split_from_space:
  "py_isspace c \<Longrightarrow> split_from cur (a @ c # b) = split_from cur a @ split_from [] b"
  by (induction a arbitrary: cur) auto

lemma split_from_word:
  "\<forall>c \<in> set w. \<not> py_isspace c \<Longrightarrow> split_from cur w = (if cur @ w = [] then [] else [cur @ w])"
  by (induction w arbitrary: cur) auto

lemma split_from_all_space: "\<forall>c \<in> set s. py_isspace c \<Longrightarrow> split_from [] s = []"
  by (induction s) auto

text \<open>
  \<open>py_split\<close> is splitting at whitespace: a whitespace character separates the tokens on
  its two sides, a non-empty text without whitespace is one token, and the tokens are the
  text without its whitespace.
\<close>

lemma py_split_space: "py_isspace c \<Longrightarrow> py_split (a @ c # b) = py_split a @ py_split b"
  by (simp add: py_split_def split_from_space)

lemma py_split_word: "w \<noteq> [] \<Longrightarrow> \<forall>c \<in> set w. \<not> py_isspace c \<Longrightarrow> py_split w = [w]"
  by (simp add: py_split_def split_from_word)

lemma py_split_concat: "concat (py_split s) = filter (\<lambda>c. \<not> py_isspace c) s"
  by (simp add: py_split_def split_from_concat)

lemma py_split_tokens:
  "w \<in> set (py_split s) \<Longrightarrow> w \<noteq> [] \<and> (\<forall>c \<in> set w. \<not> py_isspace c)"
  using split_from_nonempty[of w "[]" s] split_from_nospace[of "[]" w s]
  by (auto simp: py_split_def)

section \<open>The company-name heuristic: properties\<close>

lemma company_loop_takeWhile:
  "\<forall>w \<in> set ws. w \<noteq> [] \<Longrightarrow> company_loop ws acc = Inr (acc @ takeWhile qualifies ws)"
  by (induction ws arbitrary: acc) (auto simp: qualifies_def split: list.splits)

lemma company_loop_first5:
  "company_loop (take 5 (py_split t)) [] = Inr (takeWhile qualifies (take 5 (py_split t)))"
proof -
  have "\<forall>w \<in> set (take 5 (py_split t)). w \<noteq> []"
    using py_split_tokens by (auto dest: in_set_takeD)
  then show ?thesis
    by (simp add: company_loop_takeWhile)
qed

text \<open>
  C3. For every title, the extractor looks at the first five whitespace-separated tokens
  at most, keeps the longest leading run of tokens that start with an uppercase letter and
  are longer than two characters (it stops at the first token that fails the test, it
  does not skip it), and returns the kept tokens joined by one space, or \<open>Unknown\<close> when
  no token was kept.
\<close>

theorem extract_company_name_first_run:
  "extract_company_name t =
     Inr (let ws = takeWhile qualifies (take 5 (py_split t))
          in if ws = [] then ''Unknown'' else py_join '' '' ws)"
  by (simp add: extract_company_name_def company_loop_first5 Let_def)

theorem extract_company_name_first_run_witness:
  "takeWhile qualifies (take 5 (py_split ''Pfizer to Acquire Seagen'')) = [''Pfizer'']
   \<and> extract_company_name ''Pfizer to Acquire Seagen'' = Inr ''Pfizer''"
  using extract_company_name_first_run [of "''Pfizer to Acquire Seagen''"]
  by (simp add: py_split_def py_isspace_def py_isupper_def qualifies_def)

text \<open>
  The extractor reads no more than five tokens: a sixth qualifying token is not part of
  the name.
\<close>

lemma extract_company_name_five_tokens:
  "extract_company_name ''Eli Lilly And Company Reports Strong Growth''
     = Inr ''Eli Lilly And Company Reports''"
  by (simp add: extract_company_name_def py_split_def py_isspace_def py_isupper_def)

text \<open>
  C4, as the specification states it, fails: in \<open>Moderna Announces New Vaccine\<close> the
  fourth token \<open>Vaccine\<close> starts with an uppercase letter, is longer than two characters
  and is among the first five tokens, so it is kept too.
\<close>

theorem extract_company_name_moderna_counterexample:
  "extract_company_name ''Moderna Announces New Vaccine'' \<noteq> Inr ''Moderna Announces New''"
  by (simp add: extract_company_name_def py_split_def py_isspace_def py_isupper_def)

text \<open>
  C4, amended. The extractor applied to \<open>Moderna Announces New Vaccine\<close> returns
  \<open>Moderna Announces New Vaccine\<close>, and applied to \<open>A New Drug\<close> it returns \<open>Unknown\<close>.
\<close>

theorem extract_company_name_examples:
  "extract_company_name ''Moderna Announces New Vaccine'' = Inr ''Moderna Announces New Vaccine''
   \<and> extract_company_name ''A New Drug'' = Inr ''Unknown''"
  by (simp add: extract_company_name_def py_split_def py_isspace_def py_isupper_def)

text \<open>
  C10. For every text, the empty one and those of whitespace only included, the extractor
  returns a name and raises nothing: splitting at whitespace gives no empty token, so
  \<open>word[0]\<close> is in bounds, and with no token at all the result is \<open>Unknown\<close>.
\<close>

theorem extract_company_name_total:
  "(\<exists>name. extract_company_name t = Inr name)
   \<and> (\<forall>word \<in> set (py_split t). word \<noteq> [])
   \<and> (py_split t = [] \<longrightarrow> extract_company_name t = Inr ''Unknown'')
   \<and> ((\<forall>c \<in> set t. py_isspace c) \<longrightarrow> py_split t = [])"
proof -
  have "\<exists>name. extract_company_name t = Inr name"
    by (simp add: extract_company_name_def company_loop_first5)
  moreover have "\<forall>word \<in> set (py_split t). word \<noteq> []"
    using py_split_tokens by blast
  moreover have "py_split t = [] \<longrightarrow> extract_company_name t = Inr ''Unknown''"
    by (simp add: extract_company_name_def)
  moreover have "(\<forall>c \<in> set t. py_isspace c) \<longrightarrow> py_split t = []"
    by (simp add: py_split_def split_from_all_space)
  ultimately show ?thesis by blast
qed

theorem extract_company_name_total_witness:
  "py_split [CHR '' '', CHR 0x09, CHR 0x0A] = []
   \<and> extract_company_name [CHR '' '', CHR 0x09, CHR 0x0A] = Inr ''Unknown''
   \<and> extract_company_name [] = Inr ''Unknown''"
proof -
  have sp: "\<forall>c \<in> set [CHR '' '', CHR 0x09, CHR 0x0A]. py_isspace c"
    by (simp add: py_isspace_def)
  have e: "py_split [] = []"
    by (simp add: py_split_def)
  show ?thesis
    using sp e extract_company_name_total [of "[CHR '' '', CHR 0x09, CHR 0x0A]"]
      extract_company_name_total [of "[]"]
    by simp
qed

section \<open>Fetching: properties\<close>

lemma prints_prints: "prints b (prints a s) = prints (a @ b) s"
  by (simp add: prints_def)

lemma print_prints: "print l (prints a s) = prints (a @ [l]) s"
  by (simp add: prints_def print_def)

lemma entries_loop_map:
  "entries_loop src es acc =
     acc @ map (\<lambda>e. \<lparr>title = entry_get e ''title'' [], link = entry_get e ''link'' [],
                     published = entry_get e ''published'' [],
                     summary = entry_get e ''summary'' [], source = src\<rparr>) es"
  by (induction es arbitrary: acc) simp_all

lemma fetch_parsed:
  assumes "cutoff_date (today w) d = Inr c" and "feedparser_parse w url = Inr entries"
  shows "fetch_news_from_feed w url src d s =
     (Inr (entries_loop src (take 100 entries) []),
      prints [FetchingFrom src, Found (length (take 100 entries))] s)"
  using assms
  by (simp add: fetch_news_from_feed_def Let_def print_def prints_def entries_loop_map)

lemma fetch_failed:
  assumes "cutoff_date (today w) d = Inr c" and "feedparser_parse w url = Inl e"
  shows "fetch_news_from_feed w url src d s =
     (Inr [], prints [FetchingFrom src, ErrorFetching src e] s)"
  using assms by (simp add: fetch_news_from_feed_def Let_def print_def prints_def)

lemma fetch_overflow:
  assumes "cutoff_date (today w) d = Inl e"
  shows "fetch_news_from_feed w url src d s = (Inl e, s)"
  using assms by (simp add: fetch_news_from_feed_def)

lemma fetch_same:
  assumes "cutoff_date (today w) d1 = Inr c1" and "cutoff_date (today w) d2 = Inr c2"
  shows "fetch_news_from_feed w url src d1 s = fetch_news_from_feed w url src d2 s"
  using assms by (simp add: fetch_news_from_feed_def)

lemma fetch_loop_same:
  assumes "cutoff_date (today w) d1 = Inr c1" and "cutoff_date (today w) d2 = Inr c2"
  shows "fetch_loop w d1 fs acc s = fetch_loop w d2 fs acc s"
proof (induction fs arbitrary: acc s)
  case Nil
  show ?case by simp
next
  case (Cons f fs)
  obtain src url where f: "f = (src, url)" by (cases f)
  show ?case
    using Cons.IH by (simp add: f fetch_same[OF assms] split: prod.splits sum.splits)
qed

lemma fetch_all_news_same:
  assumes "cutoff_date (today w) d1 = Inr c1" and "cutoff_date (today w) d2 = Inr c2"
  shows "fetch_all_news w d1 s = fetch_all_news w d2 s"
  by (simp add: fetch_all_news_def fetch_loop_same[OF assms])

lemma fetch_returns:
  assumes "cutoff_date (today w) d = Inr c"
  shows "\<exists>articles lines. fetch_news_from_feed w url src d s = (Inr articles, prints lines s)"
proof (cases "feedparser_parse w url")
  case (Inl e)
  then show ?thesis using fetch_failed[OF assms] by blast
next
  case (Inr entries)
  then show ?thesis using fetch_parsed[OF assms] by blast
qed

lemma fetch_loop_returns:
  assumes "cutoff_date (today w) d = Inr c"
  shows "\<exists>articles lines. fetch_loop w d fs acc s = (Inr (acc @ articles), prints lines s)"
proof (induction fs arbitrary: acc s)
  case Nil
  have "fetch_loop w d [] acc s = (Inr (acc @ []), prints [] s)"
    by (simp add: prints_def)
  then show ?case by blast
next
  case (Cons f fs)
  obtain src url where f: "f = (src, url)" by (cases f)
  obtain articles lines
    where 1: "fetch_news_from_feed w url src d s = (Inr articles, prints lines s)"
    using fetch_returns[OF assms] by blast
  obtain more lines'
    where 2: "fetch_loop w d fs (acc @ articles) (prints lines s)
                = (Inr ((acc @ articles) @ more), prints lines' (prints lines s))"
    using Cons.IH by blast
  have "fetch_loop w d (f # fs) acc s
          = (Inr (acc @ (articles @ more)), prints (lines @ lines') s)"
    by (simp add: f 1 2 prints_prints)
  then show ?case by blast
qed

lemma fetch_all_news_returns:
  assumes "cutoff_date (today w) d = Inr c"
  shows "\<exists>articles lines. fetch_all_news w d s = (Inr articles, prints lines s)"
proof -
  let ?h = "heading ''COLLECTING NEWS FROM SOURCES''"
  obtain articles lines
    where "fetch_loop w d feeds [] (prints ?h s) = (Inr ([] @ articles), prints lines (prints ?h s))"
    using fetch_loop_returns[OF assms] by blast
  then have "fetch_all_news w d s
               = (Inr articles, prints (?h @ lines @ [TotalCollected (length articles)]) s)"
    by (simp add: fetch_all_news_def prints_prints print_prints)
  then show ?thesis by blast
qed

lemma fetch_all_news_overflow:
  assumes "cutoff_date (today w) d = Inl e"
  shows "fetch_all_news w d s = (Inl e, prints (heading ''COLLECTING NEWS FROM SOURCES'') s)"
  using assms by (simp add: fetch_all_news_def feeds_def fetch_overflow)

lemma sample_cutoff: "cutoff_date (today sample_world) 30 = Inr 739894"
  by (simp add: cutoff_date_def timedelta_days_def sample_world_def)

text \<open>
  C9. When the feed is retrieved and parsed, the fetcher returns one article for each of
  the first 100 entries at most, in the order of the feed, and the title, link, published
  and summary of an article are those of its entry, the empty text where the entry lacks
  the field. (The fetch reaches the feed when the cutoff date it computes from
  \<open>days_back\<close> is representable.)
\<close>

theorem fetch_first_100_entries:
  assumes "cutoff_date (today w) d = Inr c" and "feedparser_parse w url = Inr entries"
  shows "fst (fetch_news_from_feed w url src d s) =
           Inr (map (\<lambda>e. \<lparr>title = (case e ''title'' of None \<Rightarrow> [] | Some v \<Rightarrow> v),
                           link = (case e ''link'' of None \<Rightarrow> [] | Some v \<Rightarrow> v),
                           published = (case e ''published'' of None \<Rightarrow> [] | Some v \<Rightarrow> v),
                           summary = (case e ''summary'' of None \<Rightarrow> [] | Some v \<Rightarrow> v),
                           source = src\<rparr>)
                     (take 100 entries))
         \<and> length (take 100 entries) = min 100 (length entries)"
  by (simp add: fetch_parsed[OF assms] entries_loop_map entry_get_def)

theorem fetch_first_100_entries_witness:
  "fst (fetch_news_from_feed sample_world ''https://www.biospace.com/feed/'' ''BioSpace'' 30 start)
     = Inr [\<lparr>title = ''Moderna Raised Funding in Series B'',
              link = ''https://www.biospace.com/a1'',
              published = ''2026-11-01T10:00:00Z'',
              summary = ''The deal follows strong Q3 revenue.'',
              source = ''BioSpace''\<rparr>,
            \<lparr>title = ''a quiet week'', link = [], published = [], summary = [],
              source = ''BioSpace''\<rparr>]"
proof -
  have p: "feedparser_parse sample_world ''https://www.biospace.com/feed/'' = Inr sample_entries"
    by (simp add: sample_world_def)
  show ?thesis
    using fetch_first_100_entries [OF sample_cutoff p, of "''BioSpace''" start]
    by (simp add: sample_entries_def)
qed

text \<open>
  C6, as the specification states it, fails: the \<open>except\<close> clause sees only what
  \<open>feedparser.parse\<close> raises. A feed that is not well formed, which the parser flags in
  its result while it returns the entries it could read, is fetched like a sound one: the
  fetch prints the count of its articles, no warning, and returns them.
\<close>

theorem fetch_flagged_feed_counterexample:
  "feedparser_bozo malformed_world ''https://www.biospace.com/feed/''
   \<and> fetch_news_from_feed malformed_world ''https://www.biospace.com/feed/'' ''BioSpace'' 30 start
     = (Inr [\<lparr>title = ''Moderna Raised Funding in Series B'',
               link = ''https://www.biospace.com/a1'',
               published = ''2026-11-01T10:00:00Z'',
               summary = ''The deal follows strong Q3 revenue.'',
               source = ''BioSpace''\<rparr>,
             \<lparr>title = ''a quiet week'', link = [], published = [], summary = [],
               source = ''BioSpace''\<rparr>],
        \<lparr>stdout = [FetchingFrom ''BioSpace'', Found 2], files = Map.empty\<rparr>)"
proof -
  have c: "cutoff_date (today malformed_world) 30 = Inr 739894"
    by (simp add: cutoff_date_def timedelta_days_def sample_world_def malformed_world_def)
  have p: "feedparser_parse malformed_world ''https://www.biospace.com/feed/'' = Inr sample_entries"
    by (simp add: sample_world_def malformed_world_def)
  have b: "feedparser_bozo malformed_world ''https://www.biospace.com/feed/''"
    by (simp add: malformed_world_def)
  show ?thesis
    by (simp add: b fetch_parsed[OF c p] sample_entries_def entry_get_def prints_def start_def)
qed

text \<open>
  C6, amended. When \<open>feedparser.parse\<close>, called by the fetch, raises while it retrieves or
  parses the feed, the fetch prints the warning for that source and returns the empty
  list; the loop over the sources goes on with the next source, and fetching all sources
  returns normally.
\<close>

theorem fetch_failure_is_caught:
  assumes "cutoff_date (today w) d = Inr c" and "feedparser_parse w url = Inl e"
  shows "fetch_news_from_feed w url src d s =
           (Inr [], s\<lparr>stdout := stdout s @ [FetchingFrom src, ErrorFetching src e]\<rparr>)
         \<and> fetch_loop w d ((src, url) # rest) acc s =
             fetch_loop w d rest acc
               (s\<lparr>stdout := stdout s @ [FetchingFrom src, ErrorFetching src e]\<rparr>)
         \<and> (\<exists>articles s'. fetch_all_news w d s = (Inr articles, s'))"
proof -
  have "\<exists>articles s'. fetch_all_news w d s = (Inr articles, s')"
    using fetch_all_news_returns[OF assms(1)] by blast
  then show ?thesis
    by (simp add: fetch_failed[OF assms] prints_def)
qed

theorem fetch_failure_is_caught_witness:
  "fetch_news_from_feed sample_world ''https://www.genengnews.com/feed/'' ''GEN News'' 30 start
     = (Inr [],
        \<lparr>stdout = [FetchingFrom ''GEN News'', ErrorFetching ''GEN News'' (FeedFailure ''timed out'')],
         files = Map.empty\<rparr>)"
proof -
  have p: "feedparser_parse sample_world ''https://www.genengnews.com/feed/''
             = Inl (FeedFailure ''timed out'')"
    by (simp add: sample_world_def)
  show ?thesis
    using fetch_failure_is_caught [OF sample_cutoff p, of "''GEN News''" start]
    by (simp add: start_def)
qed

section \<open>Classifying: properties\<close>

lemma startswith_iff: "startswith k s \<longleftrightarrow> (\<exists>r. s = k @ r)"
  by (induction k s rule: startswith.induct) auto

lemma py_in_iff: "py_in k s \<longleftrightarrow> (\<exists>p r. s = p @ k @ r)"
proof (induction s)
  case Nil
  show ?case by auto
next
  case (Cons c s)
  have A: "(\<exists>p r. c # s = p @ k @ r) \<longleftrightarrow> (\<exists>r. c # s = k @ r) \<or> (\<exists>p r. s = p @ k @ r)"
  proof
    assume "\<exists>p r. c # s = p @ k @ r"
    then obtain p r where e: "c # s = p @ k @ r" by blast
    show "(\<exists>r. c # s = k @ r) \<or> (\<exists>p r. s = p @ k @ r)"
    proof (cases p)
      case Nil
      with e show ?thesis by auto
    next
      case (Cons x p')
      with e have "s = p' @ k @ r" by simp
      then show ?thesis by blast
    qed
  next
    assume "(\<exists>r. c # s = k @ r) \<or> (\<exists>p r. s = p @ k @ r)"
    then show "\<exists>p r. c # s = p @ k @ r"
    proof
      assume "\<exists>r. c # s = k @ r"
      then obtain r where "c # s = [] @ k @ r" by auto
      then show ?thesis by blast
    next
      assume "\<exists>p r. s = p @ k @ r"
      then obtain p r where "c # s = (c # p) @ k @ r" by auto
      then show ?thesis by blast
    qed
  qed
  have B: "py_in k (c # s) \<longleftrightarrow> (\<exists>r. c # s = k @ r) \<or> (\<exists>p r. s = p @ k @ r)"
    using Cons.IH by (simp only: py_in.simps startswith_iff)
  show ?case by (simp only: A B)
qed

lemma py_in_lower_iff:
  "py_in k (py_lower t) \<longleftrightarrow> (\<exists>p u s. t = p @ u @ s \<and> py_lower u = k)"
proof
  assume "py_in k (py_lower t)"
  then obtain p r where "map lower_char t = p @ (k @ r)"
    unfolding py_in_iff py_lower_def by blast
  then obtain p' x where 1: "t = p' @ x" and 2: "k @ r = map lower_char x"
    unfolding map_eq_append_conv by blast
  from 2 obtain u s where "x = u @ s" and "k = map lower_char u"
    unfolding append_eq_map_conv by blast
  with 1 show "\<exists>p u s. t = p @ u @ s \<and> py_lower u = k"
    unfolding py_lower_def by blast
next
  assume "\<exists>p u s. t = p @ u @ s \<and> py_lower u = k"
  then obtain p u s where "t = p @ u @ s" and "py_lower u = k" by blast
  then have "py_lower t = py_lower p @ k @ py_lower s"
    by (simp add: py_lower_def)
  then show "py_in k (py_lower t)"
    unfolding py_in_iff by blast
qed

lemma keywords_all_lowercase:
  "list_all (\<lambda>(category, kws). list_all (\<lambda>keyword. py_lower keyword = keyword) kws)
     keywords_table"
  by code_simp

lemma keywords_lowercase:
  "(category, kws) \<in> set keywords_table \<Longrightarrow> keyword \<in> set kws \<Longrightarrow> py_lower keyword = keyword"
  using keywords_all_lowercase unfolding list_all_iff by blast

lemma keyword_occurs:
  assumes "(category, kws) \<in> set keywords_table" and "keyword \<in> set kws"
  shows "py_in keyword (py_lower t) \<longleftrightarrow> occurs_ci keyword t"
  by (simp add: py_in_lower_iff occurs_ci_def keywords_lowercase[OF assms])

lemma categorize_loop_filter:
  "categorize_loop tbl text acc =
     acc @ map fst (filter (\<lambda>(category, kws). list_ex (\<lambda>keyword. py_in keyword text) kws) tbl)"
  by (induction tbl arbitrary: acc) auto

lemma categorize_article_filter:
  "categorize_article a =
     map fst
       (filter (\<lambda>(category, kws). list_ex (\<lambda>keyword. py_in keyword (py_lower (search_text a))) kws)
          keywords_table)"
  by (simp add: categorize_article_def categorize_loop_filter search_text_def)

lemma member_filter_table:
  "c \<in> set (map fst (filter (\<lambda>(category, kws). Q kws) tbl))
     \<longleftrightarrow> (\<exists>kws. (c, kws) \<in> set tbl \<and> Q kws)"
  by (induction tbl) auto

lemma categorize_article_member:
  "category \<in> set (categorize_article a) \<longleftrightarrow>
     (\<exists>kws. (category, kws) \<in> set keywords_table
        \<and> (\<exists>keyword \<in> set kws. occurs_ci keyword (search_text a)))"
proof -
  have "category \<in> set (categorize_article a) \<longleftrightarrow>
     (\<exists>kws. (category, kws) \<in> set keywords_table
        \<and> (\<exists>keyword \<in> set kws. py_in keyword (py_lower (search_text a))))"
    by (simp only: categorize_article_filter member_filter_table list_ex_iff)
  also have "\<dots> \<longleftrightarrow> (\<exists>kws. (category, kws) \<in> set keywords_table
        \<and> (\<exists>keyword \<in> set kws. occurs_ci keyword (search_text a)))"
    using keyword_occurs by blast
  finally show ?thesis .
qed

text \<open>
  C1. For every article, a category is in the classifier's result exactly when one of
  the category's keyword phrases occurs, letter case ignored, as a substring of the
  title, a space and the summary put together; when no keyword of any category occurs,
  the result is empty.
\<close>

theorem categorize_article_keywords:
  "(category \<in> set (categorize_article a) \<longleftrightarrow>
      (\<exists>kws. (category, kws) \<in> set keywords_table
         \<and> (\<exists>keyword \<in> set kws. occurs_ci keyword (title a @ '' '' @ summary a))))
   \<and> ((\<forall>(category, kws) \<in> set keywords_table.
          \<forall>keyword \<in> set kws. \<not> occurs_ci keyword (title a @ '' '' @ summary a))
        \<longrightarrow> categorize_article a = [])"
proof -
  have m: "\<And>category. category \<in> set (categorize_article a) \<longleftrightarrow>
      (\<exists>kws. (category, kws) \<in> set keywords_table
         \<and> (\<exists>keyword \<in> set kws. occurs_ci keyword (title a @ '' '' @ summary a)))"
    using categorize_article_member[of _ a] by (simp only: search_text_def)
  have "categorize_article a = []"
    if "\<forall>(category, kws) \<in> set keywords_table.
          \<forall>keyword \<in> set kws. \<not> occurs_ci keyword (title a @ '' '' @ summary a)"
  proof -
    have "c \<notin> set (categorize_article a)" for c
      using that m[of c] by fastforce
    then show ?thesis by (cases "categorize_article a") auto
  qed
  with m show ?thesis by blast
qed

lemma ipod_categories: "categorize_article ipod_article = [''acquisition'', ''funding'']"
  by code_simp

theorem categorize_article_keywords_witness:
  "categorize_article ipod_article = [''acquisition'', ''funding'']
   \<and> (\<exists>kws. (''funding'', kws) \<in> set keywords_table
         \<and> (\<exists>keyword \<in> set kws. occurs_ci keyword ''IPOD Maker Raised Cash No Deal yet''))
   \<and> \<not> (\<exists>kws. (''revenue'', kws) \<in> set keywords_table
         \<and> (\<exists>keyword \<in> set kws. occurs_ci keyword ''IPOD Maker Raised Cash No Deal yet''))"
proof -
  have t: "title ipod_article @ '' '' @ summary ipod_article = ''IPOD Maker Raised Cash No Deal yet''"
    by (simp add: ipod_article_def)
  show ?thesis
    using ipod_categories categorize_article_keywords [of "''funding''" ipod_article]
      categorize_article_keywords [of "''revenue''" ipod_article]
    unfolding t by simp
qed

section \<open>Bucketing: properties\<close>

lemma extract_company_name_Inr: "extract_company_name t = Inr (company_name t)"
  by (simp add: extract_company_name_def company_loop_first5 company_name_def Let_def)

lemma process_loop_buckets:
  "process_loop arts cz =
     Inr \<lparr>revenue = revenue cz @ map data_of (filter (in_category ''revenue'') arts),
          acquisitions = acquisitions cz @ map data_of (filter (in_category ''acquisition'') arts),
          funding = funding cz @ map data_of (filter (in_category ''funding'') arts),
          new_companies = new_companies cz @ map data_of (filter (in_category ''new_company'') arts)\<rparr>"
proof (induction arts arbitrary: cz)
  case Nil
  show ?case by simp
next
  case (Cons a arts)
  show ?case
    by (simp add: Cons.IH extract_company_name_Inr Let_def in_category_def data_of_def)
qed

lemma process_loop_from_empty:
  "process_loop arts no_buckets =
     Inr \<lparr>revenue = map data_of (filter (in_category ''revenue'') arts),
          acquisitions = map data_of (filter (in_category ''acquisition'') arts),
          funding = map data_of (filter (in_category ''funding'') arts),
          new_companies = map data_of (filter (in_category ''new_company'') arts)\<rparr>"
  by (simp add: process_loop_buckets no_buckets_def)

lemma four_keys:
  assumes "distinct [k1, k2, k3, k4]"
    and "cats = map fst (filter (\<lambda>(c, kws). Q kws) [(k1, w1), (k2, w2), (k3, w3), (k4, w4)])"
  shows "length cats =
     (if k1 \<in> set cats then 1 else 0) + (if k2 \<in> set cats then 1 else 0)
     + (if k3 \<in> set cats then 1 else 0) + (if k4 \<in> set cats then 1 else (0::nat))"
  using assms by auto

lemma categorize_article_length:
  "length (categorize_article a) =
     (if in_category ''revenue'' a then 1 else 0) + (if in_category ''acquisition'' a then 1 else 0)
     + (if in_category ''funding'' a then 1 else 0) + (if in_category ''new_company'' a then 1 else (0::nat))"
proof -
  have d: "distinct [''revenue'', ''acquisition'', ''funding'', ''new_company'']" by simp
  show ?thesis
    unfolding in_category_def
    by (rule four_keys[OF d, where Q = "list_ex (\<lambda>keyword. py_in keyword (py_lower (search_text a)))"])
       (simp only: categorize_article_filter keywords_table_def)
qed

lemma length_filter_sum: "length (filter P xs) = sum_list (map (\<lambda>x. if P x then 1 else 0) xs)"
  by (induction xs) simp_all

lemma bucket_total:
  "length (filter (in_category ''revenue'') arts) + length (filter (in_category ''acquisition'') arts)
   + length (filter (in_category ''funding'') arts) + length (filter (in_category ''new_company'') arts)
   = sum_list (map (\<lambda>a. length (categorize_article a)) arts)"
  by (induction arts) (simp_all add: categorize_article_length)

lemma process_loop_eq_buckets: "process_loop arts no_buckets = Inr (buckets arts)"
  by (simp add: process_loop_from_empty buckets_def)

lemma process_articles_buckets:
  "process_articles arts s =
     (Inr (buckets arts),
      prints (heading ''PROCESSING AND CATEGORIZING ARTICLES''
              @ [RevenueArticles (length (revenue (buckets arts))),
                 AcquisitionArticles (length (acquisitions (buckets arts))),
                 FundingArticles (length (funding (buckets arts))),
                 NewCompanyArticles (length (new_companies (buckets arts)))]) s)"
  by (simp add: process_articles_def process_loop_eq_buckets Let_def prints_prints)

text \<open>
  C8. For every article, the summary of its row is the summary of the article when that
  has 200 characters at most, and its first 200 characters followed by three dots when it
  has more; the date of the row is the first 10 characters of the published text, or
  \<open>N/A\<close> when that is empty. Every row of every bucket is built this way from one of the
  articles.
\<close>

theorem record_truncation:
  "(length (summary a) \<le> 200 \<longrightarrow> Summary (make_data a company) = summary a)
   \<and> (200 < length (summary a) \<longrightarrow>
        Summary (make_data a company) = take 200 (summary a) @ ''...'')
   \<and> (published a \<noteq> [] \<longrightarrow> Date (make_data a company) = take 10 (published a))
   \<and> (published a = [] \<longrightarrow> Date (make_data a company) = ''N/A'')
   \<and> (fst (process_articles articles s) = Inr cz \<longrightarrow>
        (\<forall>r \<in> set (revenue cz) \<union> set (acquisitions cz) \<union> set (funding cz)
                \<union> set (new_companies cz).
           \<exists>a \<in> set articles. \<exists>company.
             extract_company_name (title a) = Inr company \<and> r = make_data a company))"
proof -
  have "fst (process_articles articles s) = Inr cz \<longrightarrow>
        (\<forall>r \<in> set (revenue cz) \<union> set (acquisitions cz) \<union> set (funding cz)
                \<union> set (new_companies cz).
           \<exists>a \<in> set articles. \<exists>company.
             extract_company_name (title a) = Inr company \<and> r = make_data a company)"
    by (auto simp: process_articles_buckets buckets_def data_of_def extract_company_name_Inr)
  then show ?thesis
    by (simp add: make_data_def)
qed

theorem record_truncation_witness:
  "Summary (make_data long_article ''Amgen Profit'') = replicate 200 CHR ''x'' @ ''...''
   \<and> Date (make_data long_article ''Amgen Profit'') = ''2026-11-01''
   \<and> Summary (make_data (long_article\<lparr>summary := replicate 200 CHR ''x''\<rparr>) ''Amgen Profit'')
       = replicate 200 CHR ''x''
   \<and> Date (make_data ipod_article ''IPOD Maker Raised Cash'') = ''N/A''
   \<and> revenue (buckets [long_article]) = [make_data long_article ''Amgen Profit'']"
proof -
  have c: "categorize_article long_article = [''revenue'']"
    by code_simp
  have n: "extract_company_name (title long_article) = Inr ''Amgen Profit''"
    by (simp add: long_article_def extract_company_name_def py_split_def py_isspace_def
        py_isupper_def)
  have p: "fst (process_articles [long_article] start) = Inr (buckets [long_article])"
    by (simp add: process_articles_buckets)
  have r: "revenue (buckets [long_article]) = [data_of long_article]"
    by (simp add: buckets_def in_category_def c)
  show ?thesis
    using record_truncation [of long_article "''Amgen Profit''" "[long_article]" start
        "buckets [long_article]"]
      record_truncation [of "long_article\<lparr>summary := replicate 200 CHR ''x''\<rparr>" "''Amgen Profit''"
        "[]" start no_buckets]
      record_truncation [of ipod_article "''IPOD Maker Raised Cash''" "[]" start no_buckets]
      p r n
    by (simp add: long_article_def ipod_article_def)
qed

text \<open>
  C2. For every four buckets, the Summary sheet of the report has five rows, the counts
  of revenue, acquisitions, funding and new_companies in this order and then the total,
  which is the sum of the four counts. For the buckets of a list of articles the total is
  the sum over the articles of the number of categories of each: an article of \<open>k\<close>
  categories adds \<open>k\<close>.
\<close>

theorem summary_sheet_counts:
  "summary_data cz =
     [(''Revenue Reports'', length (revenue cz)),
      (''Acquisitions'', length (acquisitions cz)),
      (''Funding Rounds'', length (funding cz)),
      (''New Companies'', length (new_companies cz)),
      (''Total Articles'',
         length (revenue cz) + length (acquisitions cz) + length (funding cz)
         + length (new_companies cz))]
   \<and> map_of (report_workbook w cz) ''Summary'' = Some (CountSheet (summary_data cz))
   \<and> (fst (process_articles articles s) = Inr cz \<longrightarrow>
        length (revenue cz) + length (acquisitions cz) + length (funding cz)
        + length (new_companies cz)
        = sum_list (map (\<lambda>a. length (categorize_article a)) articles))"
proof -
  have "fst (process_articles articles s) = Inr cz \<longrightarrow>
        length (revenue cz) + length (acquisitions cz) + length (funding cz)
        + length (new_companies cz)
        = sum_list (map (\<lambda>a. length (categorize_article a)) articles)"
    using bucket_total[of articles] by (auto simp: process_articles_buckets buckets_def)
  then show ?thesis
    by (simp add: summary_data_def dict_values_def dict_items_def report_workbook_def)
qed

theorem summary_sheet_counts_witness:
  "fst (process_articles [ipod_article] start) = Inr (buckets [ipod_article])
   \<and> summary_data (buckets [ipod_article]) =
       [(''Revenue Reports'', 0), (''Acquisitions'', 1), (''Funding Rounds'', 1),
        (''New Companies'', 0), (''Total Articles'', 2)]"
proof -
  have p: "fst (process_articles [ipod_article] start) = Inr (buckets [ipod_article])"
    by (simp add: process_articles_buckets)
  have b: "length (revenue (buckets [ipod_article])) = 0
     \<and> length (acquisitions (buckets [ipod_article])) = 1
     \<and> length (funding (buckets [ipod_article])) = 1
     \<and> length (new_companies (buckets [ipod_article])) = 0"
    by (simp add: buckets_def in_category_def ipod_categories)
  show ?thesis
    using p b summary_sheet_counts [of "buckets [ipod_article]" sample_world "[ipod_article]" start]
    by (simp add: ipod_categories)
qed

section \<open>The run: properties\<close>

lemma create_excel_report_saved:
  assumes "excel_save w (report_filename w) (report_workbook w cz) = None"
  shows "create_excel_report w cz s =
     (Inr (report_filename w),
      (prints (heading ''GENERATING EXCEL REPORT'' @ [ReportCreated (report_filename w)]) s)
        \<lparr>files := (files s)(report_filename w \<mapsto> report_workbook w cz)\<rparr>)"
  using assms by (simp add: create_excel_report_def Let_def prints_def print_def)

lemma create_excel_report_failed:
  assumes "excel_save w (report_filename w) (report_workbook w cz) = Some e"
  shows "create_excel_report w cz s =
     (Inl e,
      (prints (heading ''GENERATING EXCEL REPORT'') s)
        \<lparr>files := (files s)(report_filename w := excel_left w (report_filename w)
                                                   (report_workbook w cz))\<rparr>)"
  using assms by (simp add: create_excel_report_def Let_def prints_def)

lemma fetch_frame: "\<exists>r lines. \<forall>s. fetch_news_from_feed w url src d s = (r, prints lines s)"
proof (cases "cutoff_date (today w) d")
  case (Inl e)
  then have "\<forall>s. fetch_news_from_feed w url src d s = (Inl e, prints [] s)"
    by (simp add: fetch_overflow prints_def)
  then show ?thesis by blast
next
  case c: (Inr c)
  show ?thesis
  proof (cases "feedparser_parse w url")
    case (Inl e)
    then show ?thesis using fetch_failed[OF c] by blast
  next
    case (Inr entries)
    then show ?thesis using fetch_parsed[OF c] by blast
  qed
qed

lemma fetch_loop_frame: "\<exists>r lines. \<forall>s. fetch_loop w d fs acc s = (r, prints lines s)"
proof (induction fs arbitrary: acc)
  case Nil
  have "\<forall>s. fetch_loop w d [] acc s = (Inr acc, prints [] s)"
    by (simp add: prints_def)
  then show ?case by blast
next
  case (Cons f fs)
  obtain src url where f: "f = (src, url)" by (cases f)
  obtain r lines where 1: "\<forall>s. fetch_news_from_feed w url src d s = (r, prints lines s)"
    using fetch_frame by blast
  show ?case
  proof (cases r)
    case (Inl e)
    with 1 have "\<forall>s. fetch_loop w d (f # fs) acc s = (Inl e, prints lines s)"
      by (simp add: f)
    then show ?thesis by blast
  next
    case (Inr articles)
    obtain r' lines' where 2: "\<forall>s. fetch_loop w d fs (acc @ articles) s = (r', prints lines' s)"
      using Cons.IH by blast
    have "\<forall>s. fetch_loop w d (f # fs) acc s = (r', prints (lines @ lines') s)"
      using 1 2 Inr by (simp add: f prints_prints)
    then show ?thesis by blast
  qed
qed

lemma fetch_all_news_frame: "\<exists>r lines. \<forall>s. fetch_all_news w d s = (r, prints lines s)"
proof -
  let ?h = "heading ''COLLECTING NEWS FROM SOURCES''"
  obtain r lines where 1: "\<forall>s. fetch_loop w d feeds [] s = (r, prints lines s)"
    using fetch_loop_frame by blast
  show ?thesis
  proof (cases r)
    case (Inl e)
    with 1 have "\<forall>s. fetch_all_news w d s = (Inl e, prints (?h @ lines) s)"
      by (simp add: fetch_all_news_def prints_prints)
    then show ?thesis by blast
  next
    case (Inr articles)
    with 1 have "\<forall>s. fetch_all_news w d s
                   = (Inr articles, prints (?h @ lines @ [TotalCollected (length articles)]) s)"
      by (simp add: fetch_all_news_def prints_prints print_prints)
    then show ?thesis by blast
  qed
qed

lemma fetch_all_news_files: "fetch_all_news w d s = (r, s') \<Longrightarrow> files s' = files s"
  using fetch_all_news_frame[of w d] by (auto simp: prints_def)

lemma run_result:
  assumes "fetch_all_news w d (prints (run_banner w d) s) = (Inr articles, s2)"
  shows "fst (run_monthly_report w d s) =
           (if articles = [] then Inr None
            else case excel_save w (report_filename w) (report_workbook w (buckets articles)) of
                   None \<Rightarrow> Inr (Some (report_filename w))
                 | Some e \<Rightarrow> Inl e)"
proof (cases "excel_save w (report_filename w) (report_workbook w (buckets articles))")
  case None
  then show ?thesis
    by (simp add: run_monthly_report_def assms process_articles_buckets create_excel_report_saved)
next
  case (Some e)
  then show ?thesis
    by (simp add: run_monthly_report_def assms process_articles_buckets create_excel_report_failed)
qed

lemma run_files:
  assumes "fetch_all_news w d (prints (run_banner w d) s) = (Inr articles, s2)"
  shows "files (snd (run_monthly_report w d s)) =
           (if articles = [] then files s
            else case excel_save w (report_filename w) (report_workbook w (buckets articles)) of
                   None \<Rightarrow> (files s)(report_filename w \<mapsto> report_workbook w (buckets articles))
                 | Some e \<Rightarrow>
                     (files s)(report_filename w :=
                       excel_left w (report_filename w) (report_workbook w (buckets articles))))"
proof -
  have f: "files s2 = files s"
    using fetch_all_news_files[OF assms] by (simp add: prints_def)
  show ?thesis
  proof (cases "excel_save w (report_filename w) (report_workbook w (buckets articles))")
    case None
    have "files (snd (run_monthly_report w d s)) =
            (if articles = [] then files (print NoArticlesWarning s2)
             else files (prints report_complete
                    (snd (create_excel_report w (buckets articles)
                            (snd (process_articles articles s2))))))"
      by (simp add: run_monthly_report_def assms process_articles_buckets
          create_excel_report_saved[OF None])
    then show ?thesis
      by (simp add: None process_articles_buckets create_excel_report_saved[OF None]
          f prints_def print_def)
  next
    case (Some e)
    have "files (snd (run_monthly_report w d s)) =
            (if articles = [] then files (print NoArticlesWarning s2)
             else files (snd (create_excel_report w (buckets articles)
                            (snd (process_articles articles s2)))))"
      by (simp add: run_monthly_report_def assms process_articles_buckets
          create_excel_report_failed[OF Some])
    then show ?thesis
      by (simp add: Some process_articles_buckets create_excel_report_failed[OF Some]
          f prints_def print_def)
  qed
qed

lemma run_overflow:
  assumes "cutoff_date (today w) d = Inl e"
  shows "fst (run_monthly_report w d s) = Inl e"
  by (simp add: run_monthly_report_def fetch_all_news_overflow[OF assms])

lemma sample_cutoff_week: "cutoff_date (today sample_world) 7 = Inr 739917"
  by (simp add: cutoff_date_def timedelta_days_def sample_world_def)

lemma silent_cutoff: "cutoff_date (today silent_world) 30 = Inr 739894"
  by (simp add: cutoff_date_def timedelta_days_def sample_world_def silent_world_def)

lemma cutoff_date_Inr_iff:
  "(\<exists>c. cutoff_date now d = Inr c) \<longleftrightarrow> \<bar>d\<bar> \<le> 999999999 \<and> 1 \<le> now - d \<and> now - d \<le> 3652059"
  by (auto simp: cutoff_date_def timedelta_days_def)

lemma cutoff_date_Inl: "cutoff_date now d = Inl e \<Longrightarrow> e = OverflowError"
  by (auto simp: cutoff_date_def timedelta_days_def split: if_splits)

lemma sample_fetched:
  "fst (fetch_all_news sample_world 30 s)
     = Inr [\<lparr>title = ''Moderna Raised Funding in Series B'',
              link = ''https://www.biospace.com/a1'',
              published = ''2026-11-01T10:00:00Z'',
              summary = ''The deal follows strong Q3 revenue.'',
              source = ''BioSpace''\<rparr>,
            \<lparr>title = ''a quiet week'', link = [], published = [], summary = [],
              source = ''BioSpace''\<rparr>]"
proof -
  have p: "feedparser_parse sample_world ''https://www.biospace.com/feed/'' = Inr sample_entries"
    by (simp add: sample_world_def)
  have q: "url \<noteq> ''https://www.biospace.com/feed/''
             \<Longrightarrow> feedparser_parse sample_world url = Inl (FeedFailure ''timed out'')" for url
    by (simp add: sample_world_def)
  show ?thesis
    by (simp add: fetch_all_news_def feeds_def fetch_failed[OF sample_cutoff q]
        fetch_parsed[OF sample_cutoff p] sample_entries_def entry_get_def)
qed

lemma silent_fetched: "fst (fetch_all_news silent_world 30 s) = Inr []"
proof -
  have q: "feedparser_parse silent_world url = Inl (FeedFailure ''timed out'')" for url
    by (simp add: silent_world_def)
  show ?thesis
    by (simp add: fetch_all_news_def feeds_def fetch_failed[OF silent_cutoff q])
qed

text \<open>
  C7, as the specification states it, fails: with articles fetched the run returns the
  name of the file only when the workbook is written. An exception of the spreadsheet
  writer is not caught: on a day with two articles fetched and the writer failing, the
  run ends in that exception and returns no name.
\<close>

theorem run_writer_fails_counterexample:
  "fst (fetch_all_news full_disk_world 30 (prints (run_banner full_disk_world 30) start))
     = Inr [\<lparr>title = ''Moderna Raised Funding in Series B'',
              link = ''https://www.biospace.com/a1'',
              published = ''2026-11-01T10:00:00Z'',
              summary = ''The deal follows strong Q3 revenue.'',
              source = ''BioSpace''\<rparr>,
            \<lparr>title = ''a quiet week'', link = [], published = [], summary = [],
              source = ''BioSpace''\<rparr>]
   \<and> fst (run_monthly_report full_disk_world 30 start)
     = Inl (WriteFailure ''No space left on device'')"
proof -
  let ?s = "prints (run_banner full_disk_world 30) start"
  have c: "cutoff_date (today full_disk_world) 30 = Inr 739894"
    by (simp add: cutoff_date_def timedelta_days_def sample_world_def full_disk_world_def)
  have p: "feedparser_parse full_disk_world ''https://www.biospace.com/feed/'' = Inr sample_entries"
    by (simp add: sample_world_def full_disk_world_def)
  have q: "url \<noteq> ''https://www.biospace.com/feed/''
             \<Longrightarrow> feedparser_parse full_disk_world url = Inl (FeedFailure ''timed out'')" for url
    by (simp add: sample_world_def full_disk_world_def)
  have f: "fst (fetch_all_news full_disk_world 30 ?s)
     = Inr [\<lparr>title = ''Moderna Raised Funding in Series B'',
              link = ''https://www.biospace.com/a1'',
              published = ''2026-11-01T10:00:00Z'',
              summary = ''The deal follows strong Q3 revenue.'',
              source = ''BioSpace''\<rparr>,
            \<lparr>title = ''a quiet week'', link = [], published = [], summary = [],
              source = ''BioSpace''\<rparr>]"
    by (simp add: fetch_all_news_def feeds_def fetch_failed[OF c q] fetch_parsed[OF c p]
        sample_entries_def entry_get_def)
  have 1: "fetch_all_news full_disk_world 30 ?s
     = (Inr [\<lparr>title = ''Moderna Raised Funding in Series B'',
              link = ''https://www.biospace.com/a1'',
              published = ''2026-11-01T10:00:00Z'',
              summary = ''The deal follows strong Q3 revenue.'',
              source = ''BioSpace''\<rparr>,
            \<lparr>title = ''a quiet week'', link = [], published = [], summary = [],
              source = ''BioSpace''\<rparr>], snd (fetch_all_news full_disk_world 30 ?s))"
    using f by (metis prod.collapse)
  have e: "excel_save full_disk_world n b = Some (WriteFailure ''No space left on device'')" for n b
    by (simp add: full_disk_world_def)
  show ?thesis
    using f by (simp add: run_result[OF 1] e)
qed

text \<open>
  C7, amended. Once the sources are fetched, the run returns \<open>None\<close> and leaves the files
  as they were exactly when no article was fetched. With an article fetched it processes
  the articles and writes the report with no further test, and returns the name of the
  file written unless the spreadsheet writer raises: that exception is not caught and
  ends the run.
\<close>

theorem run_fails_iff_nothing_fetched:
  assumes "fetch_all_news w d (prints (run_banner w d) s) = (Inr articles, s2)"
  shows "((fst (run_monthly_report w d s) = Inr None) = (articles = []))
         \<and> (articles = [] \<longrightarrow> files (snd (run_monthly_report w d s)) = files s)
         \<and> (articles \<noteq> [] \<longrightarrow>
              (\<exists>cz. fst (process_articles articles s2) = Inr cz
                 \<and> (case excel_save w (report_filename w) (report_workbook w cz) of
                       None \<Rightarrow>
                         fst (run_monthly_report w d s) = Inr (Some (report_filename w))
                         \<and> files (snd (run_monthly_report w d s))
                             = (files s)(report_filename w \<mapsto> report_workbook w cz)
                     | Some e \<Rightarrow> fst (run_monthly_report w d s) = Inl e)))"
proof -
  have p: "fst (process_articles articles s2) = Inr (buckets articles)"
    by (simp add: process_articles_buckets)
  show ?thesis
    by (simp add: run_result[OF assms] run_files[OF assms] p split: option.splits)
qed

theorem run_fails_iff_nothing_fetched_witness:
  "fst (run_monthly_report sample_world 30 start) = Inr (Some ''Biotech_Pharma_Report_2026-11.xlsx'')
   \<and> fst (run_monthly_report silent_world 30 start) = Inr None
   \<and> files (snd (run_monthly_report silent_world 30 start)) = Map.empty"
proof -
  let ?s = "prints (run_banner sample_world 30) start"
  let ?t = "prints (run_banner silent_world 30) start"
  have 1: "fetch_all_news sample_world 30 ?s
             = (Inr [\<lparr>title = ''Moderna Raised Funding in Series B'',
              link = ''https://www.biospace.com/a1'',
              published = ''2026-11-01T10:00:00Z'',
              summary = ''The deal follows strong Q3 revenue.'',
              source = ''BioSpace''\<rparr>,
            \<lparr>title = ''a quiet week'', link = [], published = [], summary = [],
              source = ''BioSpace''\<rparr>], snd (fetch_all_news sample_world 30 ?s))"
    using sample_fetched[of ?s] by (metis prod.collapse)
  have 2: "fetch_all_news silent_world 30 ?t = (Inr [], snd (fetch_all_news silent_world 30 ?t))"
    using silent_fetched[of ?t] by (metis prod.collapse)
  have e: "excel_save sample_world f b = None" for f b
    by (simp add: sample_world_def)
  have n: "report_filename sample_world = ''Biotech_Pharma_Report_2026-11.xlsx''"
    by (simp add: report_filename_def sample_world_def)
  show ?thesis
    using run_fails_iff_nothing_fetched [OF 1] run_fails_iff_nothing_fetched [OF 2]
    by (auto simp: e n start_def)
qed

text \<open>
  C5, as the specification states it, fails: \<open>days_back\<close> is used, before the \<open>try\<close>, to
  compute a cutoff date that nothing reads, and the computation raises when the date is
  not representable. Fetching the same feed on the same day returns two articles with
  \<open>days_back = 30\<close> and raises \<open>OverflowError\<close> with \<open>days_back = 1000000\<close>.
\<close>

theorem days_back_counterexample:
  "fst (fetch_news_from_feed sample_world ''https://www.biospace.com/feed/'' ''BioSpace'' 30 start)
     = Inr [\<lparr>title = ''Moderna Raised Funding in Series B'',
              link = ''https://www.biospace.com/a1'',
              published = ''2026-11-01T10:00:00Z'',
              summary = ''The deal follows strong Q3 revenue.'',
              source = ''BioSpace''\<rparr>,
            \<lparr>title = ''a quiet week'', link = [], published = [], summary = [],
              source = ''BioSpace''\<rparr>]
   \<and> fst (fetch_news_from_feed sample_world ''https://www.biospace.com/feed/'' ''BioSpace'' 1000000
            start)
     = Inl OverflowError"
proof -
  have p: "feedparser_parse sample_world ''https://www.biospace.com/feed/'' = Inr sample_entries"
    by (simp add: sample_world_def)
  have o: "cutoff_date (today sample_world) 1000000 = Inl OverflowError"
    by (simp add: cutoff_date_def timedelta_days_def sample_world_def)
  show ?thesis
    by (simp add: fetch_parsed[OF sample_cutoff p] fetch_overflow[OF o] sample_entries_def
        entry_get_def)
qed

text \<open>
  C5, amended. For every feed, source and any two values of \<open>days_back\<close> whose cutoff
  date is representable, fetching with the one and with the other returns the same
  articles and prints the same lines, and so does fetching all sources; the run returns
  the same result and writes the same files. No date filter is applied.
\<close>

theorem days_back_not_applied:
  assumes "cutoff_date (today w) d1 = Inr c1" and "cutoff_date (today w) d2 = Inr c2"
  shows "fetch_news_from_feed w url src d1 s = fetch_news_from_feed w url src d2 s
         \<and> fetch_all_news w d1 s = fetch_all_news w d2 s
         \<and> fst (run_monthly_report w d1 s) = fst (run_monthly_report w d2 s)
         \<and> files (snd (run_monthly_report w d1 s)) = files (snd (run_monthly_report w d2 s))"
proof -
  obtain articles lines where r: "\<forall>s. fetch_all_news w d1 s = (Inr articles, prints lines s)"
  proof -
    obtain r lines where 1: "\<forall>s. fetch_all_news w d1 s = (r, prints lines s)"
      using fetch_all_news_frame by blast
    obtain articles where "r = Inr articles"
      using fetch_all_news_returns[OF assms(1), of s] 1 by auto
    with 1 that show ?thesis by blast
  qed
  have 1: "fetch_all_news w d1 (prints (run_banner w d1) s)
             = (Inr articles, prints lines (prints (run_banner w d1) s))"
    using r by blast
  have 2: "fetch_all_news w d2 (prints (run_banner w d2) s)
             = (Inr articles, prints lines (prints (run_banner w d2) s))"
    using r fetch_all_news_same[OF assms] by metis
  show ?thesis
    by (simp add: fetch_same[OF assms] fetch_all_news_same[OF assms]
        run_result[OF 1] run_result[OF 2] run_files[OF 1] run_files[OF 2])
qed

theorem days_back_not_applied_witness:
  "fetch_news_from_feed sample_world ''https://www.biospace.com/feed/'' ''BioSpace'' 30 start
     = fetch_news_from_feed sample_world ''https://www.biospace.com/feed/'' ''BioSpace'' 7 start
   \<and> fst (run_monthly_report sample_world 30 start) = fst (run_monthly_report sample_world 7 start)"
  using days_back_not_applied [OF sample_cutoff sample_cutoff_week,
      of "''https://www.biospace.com/feed/''" "''BioSpace''" start]
  by simp

end
